theory Spec2Isabelle
  imports Complex_Main
begin

section \<open>Errors and arrays\<close>

text \<open>
  The exceptions that the script and the numpy routines it calls can raise. \<open>WriterError\<close>
  stands for any exception of the external cube-file writer.
\<close>

datatype error = ValueError | UnboundLocalError | FileNotFoundError | WriterError

text \<open>
  A three-dimensional ndarray is a list of planes, each a list of rows, each a list of
  cells. An ndarray is rectangular; \<open>is_array3\<close> says so. An array with a zero-length axis
  keeps no length for the axes inside it in this representation.
\<close>

type_synonym 'a array3 = "'a list list list"

definition shape3 :: "'a array3 \<Rightarrow> nat \<times> nat \<times> nat" where
  "shape3 a =
     (length a,
      (case a of [] \<Rightarrow> 0 | p # _ \<Rightarrow> length p),
      (case a of [] \<Rightarrow> 0 | p # _ \<Rightarrow> (case p of [] \<Rightarrow> 0 | r # _ \<Rightarrow> length r)))"

definition is_array3 :: "'a array3 \<Rightarrow> bool" where
  "is_array3 a =
     (case shape3 a of (X, Y, Z) \<Rightarrow>
        list_all (\<lambda>p. length p = Y \<and> list_all (\<lambda>r. length r = Z) p) a)"

definition map3 :: "('a \<Rightarrow> 'b) \<Rightarrow> 'a array3 \<Rightarrow> 'b array3" where
  "map3 f a = map (map (map f)) a"

text \<open>All cells of an array in row-major order.\<close>

definition flat3 :: "'a array3 \<Rightarrow> 'a list" where
  "flat3 a = concat (concat a)"


section \<open>The smoothing filter \<open>local_average_3d\<close>\<close>

text \<open>
  \<open>np.pad(array, pad_width=n, mode='constant', constant_values=0)\<close>: \<open>n\<close> zero planes before
  and after, \<open>n\<close> zero rows before and after the rows of each plane, \<open>n\<close> zeros before and
  after the cells of each row.
\<close>

definition pad1 :: "nat \<Rightarrow> 'a \<Rightarrow> 'a list \<Rightarrow> 'a list" where
  "pad1 n z xs = replicate n z @ xs @ replicate n z"

definition np_pad :: "'a::zero array3 \<Rightarrow> nat \<Rightarrow> 'a array3" where
  "np_pad a n =
     (case shape3 a of (X, Y, Z) \<Rightarrow>
        let zrow = replicate (Z + 2 * n) 0;
            zplane = replicate (Y + 2 * n) zrow
        in pad1 n zplane (map (\<lambda>p. pad1 n zrow (map (pad1 n 0) p)) a))"

text \<open>\<open>np.ones_like(array)\<close>: the same shape, every cell one.\<close>

definition ones_like :: "'a array3 \<Rightarrow> 'a::one array3" where
  "ones_like a = map3 (\<lambda>_. 1) a"

text \<open>
  \<open>sliding_window_view(x, (w, w, w))\<close>: numpy raises ValueError when an axis of \<open>x\<close> is
  shorter than the window; otherwise the view at \<open>[i, j, k]\<close> is the block
  \<open>x[i:i+w, j:j+w, k:k+w]\<close>, for every position where the block fits.
\<close>

definition window3 :: "'a array3 \<Rightarrow> nat \<Rightarrow> nat \<Rightarrow> nat \<Rightarrow> nat \<Rightarrow> 'a array3" where
  "window3 x w i j k =
     map (\<lambda>pl. map (\<lambda>rw. take w (drop k rw)) (take w (drop j pl))) (take w (drop i x))"

definition sliding_window_view :: "'a array3 \<Rightarrow> nat \<Rightarrow> error + 'a array3 array3" where
  "sliding_window_view x w =
     (case shape3 x of (X, Y, Z) \<Rightarrow>
        if X < w \<or> Y < w \<or> Z < w then Inl ValueError
        else Inr (map (\<lambda>i. map (\<lambda>j. map (\<lambda>k. window3 x w i j k)
                    [0..<Z - w + 1]) [0..<Y - w + 1]) [0..<X - w + 1]))"

text \<open>\<open>.sum(axis=(-3, -2, -1))\<close>: every window is replaced by the sum of its cells.\<close>

definition asum :: "'a::{zero,plus} list \<Rightarrow> 'a" where
  "asum xs = foldr (+) xs 0"

definition sum3 :: "'a::{zero,plus} array3 \<Rightarrow> 'a" where
  "sum3 w = asum (map (\<lambda>pl. asum (map asum pl)) w)"

definition window_sums :: "'a::{zero,plus} array3 array3 \<Rightarrow> 'a array3" where
  "window_sums ws = map3 sum3 ws"

text \<open>Elementwise division of two arrays of the same shape.\<close>

definition divide3 :: "'a::inverse array3 \<Rightarrow> 'a array3 \<Rightarrow> 'a array3" where
  "divide3 a b = map2 (map2 (map2 (\<lambda>x y. x / y))) a b"

text \<open>
  \<open>local_average_3d(array, n)\<close>. The source first binds \<open>avg_array\<close> to the plain mean of
  every padded window and then rebinds it to the quotient below; the first binding is never
  read and cannot raise, so it is left out. The radius is a natural number here: a negative
  \<open>n\<close> is outside the model.
\<close>

definition local_average_3d :: "'a::{zero,one,plus,inverse} array3 \<Rightarrow> nat \<Rightarrow> error + 'a array3" where
  "local_average_3d array n =
     (let padded = np_pad array n;
          window_size = 2 * n + 1
      in case sliding_window_view padded window_size of
           Inl e \<Rightarrow> Inl e
         | Inr windows \<Rightarrow>
             (let mask = ones_like array;
                  padded_mask = np_pad mask n
              in case sliding_window_view padded_mask window_size of
                   Inl e \<Rightarrow> Inl e
                 | Inr mask_windows \<Rightarrow>
                     (let counts = window_sums mask_windows
                      in Inr (divide3 (window_sums windows) counts))))"

text \<open>
  The reading of the filter in the specification: the in-bounds cells within Chebyshev
  distance \<open>n\<close> of a cell, listed by index.
\<close>

definition dist1 :: "nat \<Rightarrow> nat \<Rightarrow> nat" where
  "dist1 a b = (a - b) + (b - a)"

fun chebyshev :: "nat \<times> nat \<times> nat \<Rightarrow> nat \<times> nat \<times> nat \<Rightarrow> nat" where
  "chebyshev (i, j, k) (p, q, r) = max (dist1 i p) (max (dist1 j q) (dist1 k r))"

fun cells :: "nat \<times> nat \<times> nat \<Rightarrow> (nat \<times> nat \<times> nat) list" where
  "cells (X, Y, Z) = List.product [0..<X] (List.product [0..<Y] [0..<Z])"

definition in_bounds_neighbours ::
    "nat \<times> nat \<times> nat \<Rightarrow> nat \<Rightarrow> nat \<times> nat \<times> nat \<Rightarrow> (nat \<times> nat \<times> nat) list" where
  "in_bounds_neighbours shp n c = filter (\<lambda>d. chebyshev c d \<le> n) (cells shp)"

fun cell_at :: "'a array3 \<Rightarrow> nat \<times> nat \<times> nat \<Rightarrow> 'a" where
  "cell_at a (p, q, r) = a ! p ! q ! r"


section \<open>Floating-point cells\<close>

text \<open>
  A cell of a numpy float array: a real number, an infinity or NaN. The arithmetic is that
  of IEEE 754 on exact reals: rounding, overflow and the sign of zero are not modelled. Zero
  divided by zero is NaN and numpy goes on with a warning; no exception is raised.
\<close>

datatype fval = Fin real | PInf | NInf | NaN

instantiation fval :: "{zero, one, plus, uminus, minus, inverse}"
begin

definition zero_fval :: fval where
  "zero_fval = Fin 0"

definition one_fval :: fval where
  "one_fval = Fin 1"

fun plus_fval :: "fval \<Rightarrow> fval \<Rightarrow> fval" where
  "plus_fval (Fin a) (Fin b) = Fin (a + b)"
| "plus_fval NaN _ = NaN"
| "plus_fval _ NaN = NaN"
| "plus_fval PInf NInf = NaN"
| "plus_fval NInf PInf = NaN"
| "plus_fval PInf _ = PInf"
| "plus_fval _ PInf = PInf"
| "plus_fval NInf _ = NInf"
| "plus_fval _ NInf = NInf"

fun uminus_fval :: "fval \<Rightarrow> fval" where
  "uminus_fval (Fin a) = Fin (- a)"
| "uminus_fval PInf = NInf"
| "uminus_fval NInf = PInf"
| "uminus_fval NaN = NaN"

definition minus_fval :: "fval \<Rightarrow> fval \<Rightarrow> fval" where
  "minus_fval a b = a + (- b :: fval)"

fun divide_fval :: "fval \<Rightarrow> fval \<Rightarrow> fval" where
  "divide_fval (Fin a) (Fin b) =
     (if b \<noteq> 0 then Fin (a / b)
      else if a = 0 then NaN
      else if 0 < a then PInf else NInf)"
| "divide_fval NaN _ = NaN"
| "divide_fval _ NaN = NaN"
| "divide_fval (Fin a) _ = Fin 0"
| "divide_fval PInf (Fin b) = (if 0 \<le> b then PInf else NInf)"
| "divide_fval NInf (Fin b) = (if 0 \<le> b then NInf else PInf)"
| "divide_fval _ _ = NaN"

definition inverse_fval :: "fval \<Rightarrow> fval" where
  "inverse_fval a = divide (Fin 1) a"

instance ..

end

text \<open>
  \<open>np.minimum\<close> and \<open>np.maximum\<close> of two cells, and the reductions \<open>.min()\<close> and \<open>.max()\<close>
  over a whole array: NaN wins over everything, and an array with no cell raises ValueError.
\<close>

fun fle :: "fval \<Rightarrow> fval \<Rightarrow> bool" where
  "fle (Fin a) (Fin b) = (a \<le> b)"
| "fle NaN _ = False"
| "fle _ NaN = False"
| "fle NInf _ = True"
| "fle _ PInf = True"
| "fle _ _ = False"

definition fmin :: "fval \<Rightarrow> fval \<Rightarrow> fval" where
  "fmin a b = (if a = NaN \<or> b = NaN then NaN else if fle a b then a else b)"

definition fmax :: "fval \<Rightarrow> fval \<Rightarrow> fval" where
  "fmax a b = (if a = NaN \<or> b = NaN then NaN else if fle a b then b else a)"

definition np_min :: "fval array3 \<Rightarrow> error + fval" where
  "np_min a = (case flat3 a of [] \<Rightarrow> Inl ValueError | v # vs \<Rightarrow> Inr (foldl fmin v vs))"

definition np_max :: "fval array3 \<Rightarrow> error + fval" where
  "np_max a = (case flat3 a of [] \<Rightarrow> Inl ValueError | v # vs \<Rightarrow> Inr (foldl fmax v vs))"

section \<open>The trajectory parser and the density estimator \<open>make_prob_density\<close>\<close>

text \<open>
  Python's string operations on a line of the file: \<open>line.startswith(p)\<close>, the slice
  \<open>line[lo:hi]\<close> (which is shorter, or empty, when the line is) and \<open>s.strip()\<close>, which
  removes the whitespace at both ends. A character is a code point below 256.
\<close>

definition startswith :: "string \<Rightarrow> string \<Rightarrow> bool" where
  "startswith s p = (take (length p) s = p)"

definition slice :: "nat \<Rightarrow> nat \<Rightarrow> 'a list \<Rightarrow> 'a list" where
  "slice lo hi xs = take (hi - lo) (drop lo xs)"

definition is_space :: "char \<Rightarrow> bool" where
  "is_space c = (of_char c \<in> {9, 10, 11, 12, 13, 28, 29, 30, 31, 32, 133, 160 :: nat})"

definition strip :: "string \<Rightarrow> string" where
  "strip s = rev (dropWhile is_space (rev (dropWhile is_space s)))"

text \<open>
  The first scan of the file: the first line that starts with \<open>CRYST1\<close> gives the three cell
  edges. The builtin \<open>float\<close> is a parameter \<open>fl\<close> of the model: \<open>None\<close> is its ValueError,
  and only finite values are considered. When no line starts with \<open>CRYST1\<close> the loop ends
  with \<open>a\<close>, \<open>b\<close>, \<open>c\<close> unbound and \<open>print(a, b, c)\<close> raises UnboundLocalError.
\<close>

fun read_cell :: "(string \<Rightarrow> real option) \<Rightarrow> string list \<Rightarrow> error + real \<times> real \<times> real" where
  "read_cell fl [] = Inl UnboundLocalError"
| "read_cell fl (line # rest) =
     (if startswith line ''CRYST1'' then
        (case fl (slice 6 15 line) of
           None \<Rightarrow> Inl ValueError
         | Some a \<Rightarrow>
             (case fl (slice 15 24 line) of
                None \<Rightarrow> Inl ValueError
              | Some b \<Rightarrow>
                  (case fl (slice 24 33 line) of
                     None \<Rightarrow> Inl ValueError
                   | Some c \<Rightarrow> Inr (a, b, c))))
      else read_cell fl rest)"

text \<open>
  The second scan: the flag \<open>in_model\<close> and the list \<open>coords\<close> are the loop's state.
\<close>

fun read_coords ::
    "(string \<Rightarrow> real option) \<Rightarrow> string \<Rightarrow> bool \<Rightarrow> (real \<times> real \<times> real) list \<Rightarrow> string list
      \<Rightarrow> error + (real \<times> real \<times> real) list" where
  "read_coords fl atm in_model coords [] = Inr coords"
| "read_coords fl atm in_model coords (line # rest) =
     (if startswith line ''MODEL'' then read_coords fl atm True coords rest
      else if startswith line ''ENDMDL'' then read_coords fl atm False coords rest
      else if in_model \<and> startswith line ''ATOM'' then
        (let element = strip (slice 76 78 line)
         in if element = atm then
              (case fl (slice 30 38 line) of
                 None \<Rightarrow> Inl ValueError
               | Some x \<Rightarrow>
                   (case fl (slice 38 46 line) of
                      None \<Rightarrow> Inl ValueError
                    | Some y \<Rightarrow>
                        (case fl (slice 46 54 line) of
                           None \<Rightarrow> Inl ValueError
                         | Some z \<Rightarrow> read_coords fl atm in_model (coords @ [(x, y, z)]) rest)))
            else read_coords fl atm in_model coords rest)
      else read_coords fl atm in_model coords rest)"

text \<open>
  \<open>np.linspace(start, stop, num)\<close>: \<open>num\<close> evenly spaced points, the last one \<open>stop\<close>.
\<close>

definition linspace :: "real \<Rightarrow> real \<Rightarrow> nat \<Rightarrow> real list" where
  "linspace start stop num =
     (if num = 1 then [start]
      else map (\<lambda>i. start + real i * ((stop - start) / real (num - 1))) [0..<num])"

text \<open>
  \<open>np.histogramdd(sample, bins=edges)\<close> with three arrays of bin edges. The empty list of
  coordinates becomes an array with one axis, which does not match the three arrays of
  edges: numpy raises ValueError. Edges that decrease raise ValueError too. On each axis a
  coordinate gets the number of edges that are at most the coordinate
  (\<open>searchsorted(..., side='right')\<close>), lowered by one when the coordinate equals the last
  edge; the numbers \<open>1, ..., len(edges) - 1\<close> are the bins and any other number drops the
  coordinate. The counts are floats.
\<close>

definition searchsorted_right :: "real list \<Rightarrow> real \<Rightarrow> nat" where
  "searchsorted_right es x = length (takeWhile (\<lambda>e. e \<le> x) es)"

definition bin_number :: "real list \<Rightarrow> real \<Rightarrow> nat" where
  "bin_number es x =
     (let c = searchsorted_right es x in if x = last es then c - 1 else c)"

definition bin_count ::
    "real list \<times> real list \<times> real list \<Rightarrow> (real \<times> real \<times> real) list \<Rightarrow> nat \<Rightarrow> nat \<Rightarrow> nat \<Rightarrow> nat" where
  "bin_count edges sample p q r =
     (case edges of (ex, ey, ez) \<Rightarrow>
        length (filter (\<lambda>(x, y, z).
          bin_number ex x = p + 1 \<and> bin_number ey y = q + 1 \<and> bin_number ez z = r + 1) sample))"

definition histogramdd ::
    "(real \<times> real \<times> real) list \<Rightarrow> real list \<times> real list \<times> real list \<Rightarrow> error + fval array3" where
  "histogramdd sample edges =
     (case edges of (ex, ey, ez) \<Rightarrow>
        if sample = [] then Inl ValueError
        else if \<not> sorted ex \<or> \<not> sorted ey \<or> \<not> sorted ez then Inl ValueError
        else Inr (map (\<lambda>p. map (\<lambda>q. map (\<lambda>r. Fin (real (bin_count edges sample p q r)))
                    [0..<length ez - 1]) [0..<length ey - 1]) [0..<length ex - 1]))"

text \<open>
  Lines 45 to 56 of the source: the density from the coordinates, the cell edges and the
  number of bins per axis (a natural number here: a negative \<open>grid_size\<close> is outside the
  model).
\<close>

definition density_estimator ::
    "(real \<times> real \<times> real) list \<Rightarrow> real \<times> real \<times> real \<Rightarrow> nat \<Rightarrow> error + fval array3" where
  "density_estimator coords cell grid_size =
     (case cell of (a, b, c) \<Rightarrow>
        let edges = (linspace 0 a (grid_size + 1),
                     linspace 0 b (grid_size + 1),
                     linspace 0 c (grid_size + 1))
        in case histogramdd coords edges of
             Inl e \<Rightarrow> Inl e
           | Inr hist \<Rightarrow> Inr (map3 (\<lambda>h. h / sum3 hist) hist))"

text \<open>
  \<open>make_prob_density(pdb_filename, atm, grid_size)\<close>. The files that can be opened are a
  parameter \<open>files\<close>, from a path to the lines of the file; the source opens the file twice
  and reads the same lines both times.
\<close>

definition make_prob_density ::
    "(string \<Rightarrow> real option) \<Rightarrow> (string \<Rightarrow> string list option) \<Rightarrow> string \<Rightarrow> string \<Rightarrow> nat
      \<Rightarrow> error + fval array3" where
  "make_prob_density fl files pdb_filename atm grid_size =
     (case files pdb_filename of
        None \<Rightarrow> Inl FileNotFoundError
      | Some lines \<Rightarrow>
          (case read_cell fl lines of
             Inl e \<Rightarrow> Inl e
           | Inr cell \<Rightarrow>
               (case read_coords fl atm False [] lines of
                  Inl e \<Rightarrow> Inl e
                | Inr coords \<Rightarrow> density_estimator coords cell grid_size)))"

section \<open>The orchestrator \<open>get_filtered_prob_density\<close>\<close>

text \<open>
  Lines 98 and 99: \<open>(d - d.min()) / (d.max() - d.min())\<close>. The reductions raise ValueError
  on an array with no cell; the division raises nothing.
\<close>

definition minmax_normalize :: "fval array3 \<Rightarrow> error + fval array3" where
  "minmax_normalize d =
     (case np_min d of
        Inl e \<Rightarrow> Inl e
      | Inr lo \<Rightarrow>
          (case np_max d of
             Inl e \<Rightarrow> Inl e
           | Inr hi \<Rightarrow> Inr (map3 (\<lambda>v. (v - lo) / (hi - lo)) d)))"

text \<open>Elementwise difference of two arrays of the same shape.\<close>

definition minus3 :: "'a::minus array3 \<Rightarrow> 'a array3 \<Rightarrow> 'a array3" where
  "minus3 a b = map2 (map2 (map2 (\<lambda>x y. x - y))) a b"

text \<open>
  The external writer \<open>write(filename, atoms, data=...)\<close> is a parameter: from the file
  name, the cell edge and the grid it takes the state of the output directory to a new
  state, with an error when it fails. The orchestrator returns what the call returns or
  raises, together with the state of the output directory that the call leaves behind.
\<close>

type_synonym 'fs writer = "string \<Rightarrow> real \<Rightarrow> fval array3 \<Rightarrow> 'fs \<Rightarrow> error option \<times> 'fs"

definition get_filtered_prob_density ::
    "(string \<Rightarrow> real option) \<Rightarrow> (string \<Rightarrow> string list option) \<Rightarrow> 'fs writer
      \<Rightarrow> string \<Rightarrow> string \<Rightarrow> nat \<Rightarrow> real \<Rightarrow> string \<Rightarrow> nat \<Rightarrow> 'fs \<Rightarrow> (error + int) \<times> 'fs" where
  "get_filtered_prob_density fl files write pdb_filename_before pdb_filename_after
       grid_size cell_a atm padding_n s0 =
     (case make_prob_density fl files pdb_filename_before atm grid_size of
        Inl e \<Rightarrow> (Inl e, s0)
      | Inr density_before \<Rightarrow>
     (case make_prob_density fl files pdb_filename_after atm grid_size of
        Inl e \<Rightarrow> (Inl e, s0)
      | Inr density_after \<Rightarrow>
     (case minmax_normalize density_before of
        Inl e \<Rightarrow> (Inl e, s0)
      | Inr prob_density_before \<Rightarrow>
     (case minmax_normalize density_after of
        Inl e \<Rightarrow> (Inl e, s0)
      | Inr prob_density_after \<Rightarrow>
     (let prob_density_diff = minus3 prob_density_after prob_density_before
      in case local_average_3d prob_density_diff padding_n of
        Inl e \<Rightarrow> (Inl e, s0)
      | Inr prob_density_diff_filtered \<Rightarrow>
     (case write (''prob_density_'' @ atm @ ''_before_step.cube'') cell_a prob_density_before s0 of
        (Some e, s1) \<Rightarrow> (Inl e, s1)
      | (None, s1) \<Rightarrow>
     (case write (''prob_density_'' @ atm @ ''_after_step.cube'') cell_a prob_density_after s1 of
        (Some e, s2) \<Rightarrow> (Inl e, s2)
      | (None, s2) \<Rightarrow>
     (case write (''prob_density_'' @ atm @ ''_difference.cube'') cell_a prob_density_diff s2 of
        (Some e, s3) \<Rightarrow> (Inl e, s3)
      | (None, s3) \<Rightarrow>
     (case write (''prob_density_'' @ atm @ ''_difference_filtered.cube'') cell_a
             prob_density_diff_filtered s3 of
        (Some e, s4) \<Rightarrow> (Inl e, s4)
      | (None, s4) \<Rightarrow> (Inr 0, s4))))))))))"

text \<open>
  The top level of the script: the user parameters, and the value that line 130 binds to
  \<open>prob_density_diff_filtered\<close>.
\<close>

definition script ::
    "(string \<Rightarrow> real option) \<Rightarrow> (string \<Rightarrow> string list option) \<Rightarrow> 'fs writer \<Rightarrow> 'fs
      \<Rightarrow> (error + int) \<times> 'fs" where
  "script fl files write s0 =
     (let grid_size = 200;
          cell_a = 50256 / 1000;
          atm = ''Ar'';
          padding_n = 15;
          pdb_filename_before =
            ''Movie_CU-6_Cr_P1_pacman_1.1.1_87.000000_6000.000000_allcomponents.pdb'';
          pdb_filename_after =
            ''Movie_CU-6_Cr_P1_pacman_1.1.1_87.000000_10000.000000_allcomponents.pdb'';
          prob_density_diff_filtered =
            get_filtered_prob_density fl files write pdb_filename_before pdb_filename_after
              grid_size cell_a atm padding_n s0
      in prob_density_diff_filtered)"

section \<open>An example run\<close>

text \<open>
  Two small trajectory files for a cubic cell of edge 10, and a third one with no argon atom.
  \<open>example_float\<close> gives the value of \<open>float\<close> on the number fields of these files. The
  output directory of the examples is the list of the files written so far, oldest first;
  \<open>recording_writer\<close> always succeeds and \<open>failing_writer\<close> fails on one file name and
  writes nothing for it.
\<close>

definition example_float :: "string \<Rightarrow> real option" where
  "example_float s =
     map_of [(''10.000'', 10), (''1.000'', 1), (''2.000'', 2), (''5.000'', 5),
             (''6.000'', 6), (''9.000'', 9)] (strip s)"

definition example_before :: "string list" where
  "example_before =
     [''CRYST1   10.000   10.000   10.000  90.00  90.00  90.00'' @ [CHR 0x0A],
      ''MODEL    1'' @ [CHR 0x0A],
      ''ATOM      1 Ar   MOL     1       1.000   1.000   1.000  1.00  0.00          Ar'' @ [CHR 0x0A],
      ''ATOM      2 C    MOL     2       2.000   2.000   2.000  1.00  0.00           C'' @ [CHR 0x0A],
      ''ATOM      3 Ar   MOL     3       5.000   5.000   5.000  1.00  0.00          Ar'' @ [CHR 0x0A],
      ''ENDMDL'' @ [CHR 0x0A],
      ''ATOM      4 Ar   MOL     4       6.000   2.000   9.000  1.00  0.00          Ar'' @ [CHR 0x0A]]"

definition example_after :: "string list" where
  "example_after =
     [''CRYST1   10.000   10.000   10.000  90.00  90.00  90.00'' @ [CHR 0x0A],
      ''MODEL    1'' @ [CHR 0x0A],
      ''ATOM      1 Ar   MOL     1       6.000   2.000   9.000  1.00  0.00          Ar'' @ [CHR 0x0A],
      ''ATOM      2 Ar   MOL     2       1.000   1.000   1.000  1.00  0.00          Ar'' @ [CHR 0x0A],
      ''ENDMDL'' @ [CHR 0x0A],
      ''MODEL    2'' @ [CHR 0x0A],
      ''ATOM      1 Ar   MOL     1       6.000   2.000   9.000  1.00  0.00          Ar'' @ [CHR 0x0A],
      ''ATOM      2 C    MOL     2       5.000   5.000   5.000  1.00  0.00           C'' @ [CHR 0x0A],
      ''ENDMDL'' @ [CHR 0x0A]]"

definition example_no_argon :: "string list" where
  "example_no_argon =
     [''CRYST1   10.000   10.000   10.000  90.00  90.00  90.00'' @ [CHR 0x0A],
      ''MODEL    1'' @ [CHR 0x0A],
      ''ATOM      1 C    MOL     1       2.000   2.000   2.000  1.00  0.00           C'' @ [CHR 0x0A],
      ''ENDMDL'' @ [CHR 0x0A]]"

definition example_files :: "string \<Rightarrow> string list option" where
  "example_files =
     map_of [(''before.pdb'', example_before), (''after.pdb'', example_after),
             (''no_argon.pdb'', example_no_argon)]"

definition recording_writer :: "(string \<times> fval array3) list writer" where
  "recording_writer name cell_a grid s = (None, s @ [(name, grid)])"

definition failing_writer :: "string \<Rightarrow> (string \<times> fval array3) list writer" where
  "failing_writer bad name cell_a grid s =
     (if name = bad then (Some WriterError, s) else (None, s @ [(name, grid)]))"
section \<open>Properties of the smoothing filter\<close>


lemma asum_sum_list: "asum (xs::'a::monoid_add list) = sum_list xs"
  by (induction xs) (simp_all add: asum_def)

lemma take_upt_slice: "hi \<le> L \<Longrightarrow> take (hi - lo) [lo..<L] = [lo..<hi]"
  by (cases "lo \<le> hi") simp_all

lemma slice_nth:
  assumes "hi \<le> length xs"
  shows "take (hi - lo) (drop lo xs) = map (nth xs) [lo..<hi]"
proof -
  have "take (hi - lo) (drop lo (map (nth xs) [0..<length xs])) = map (nth xs) [lo..<hi]"
    using assms by (simp add: take_map drop_map take_upt_slice del: take_upt)
  then show ?thesis by (simp add: map_nth)
qed

lemma window_pad1:
  assumes "k < length xs"
  shows "take (2 * n + 1) (drop k (pad1 n z xs)) =
         replicate (n - k) z @ take (min (k + n + 1) (length xs) - (k - n)) (drop (k - n) xs)
           @ replicate (k + n + 1 - length xs) z"
proof (cases "k \<le> n")
  case True
  have "take (2 * n + 1) (drop k (pad1 n z xs)) =
        replicate (n - k) z @ take (k + n + 1) (xs @ replicate n z)"
    using True by (simp add: pad1_def add.commute)
  also have "take (k + n + 1) (xs @ replicate n z) =
        take (k + n + 1) xs @ replicate (min (k + n + 1 - length xs) n) z"
    by simp
  also have "min (k + n + 1 - length xs) n = k + n + 1 - length xs"
    using assms by simp
  also have "take (k + n + 1) xs = take (min (k + n + 1) (length xs) - (k - n)) (drop (k - n) xs)"
    using True by (simp add: min_def)
  finally show ?thesis by simp
next
  case False
  then have kn: "n < k" by simp
  have "take (2 * n + 1) (drop k (pad1 n z xs)) =
        take (2 * n + 1) (drop (k - n) xs @ replicate n z)"
    using kn assms by (simp add: pad1_def)
  also have "\<dots> = take (2 * n + 1) (drop (k - n) xs) @
                  replicate (min (2 * n + 1 - (length xs - (k - n))) n) z"
    by simp
  also have "min (2 * n + 1 - (length xs - (k - n))) n = k + n + 1 - length xs"
    using assms kn by arith
  also have "take (2 * n + 1) (drop (k - n) xs) =
             take (min (k + n + 1) (length xs) - (k - n)) (drop (k - n) xs)"
    using assms kn by (simp add: min_def mult_2)
  finally show ?thesis using kn by simp
qed


lemma sum_list_replicate_zero: "sum_list (replicate m (0::'a::comm_monoid_add)) = 0"
  by (induction m) simp_all

lemma window_sum_1d:
  fixes f :: "'b \<Rightarrow> 'a::comm_monoid_add"
  assumes "k < length xs" and "f z = 0"
  shows "sum_list (map f (take (2 * n + 1) (drop k (pad1 n z xs)))) =
         (\<Sum>q = k - n..<min (k + n + 1) (length xs). f (xs ! q))"
proof -
  have "sum_list (map f (take (2 * n + 1) (drop k (pad1 n z xs)))) =
        sum_list (map f (take (min (k + n + 1) (length xs) - (k - n)) (drop (k - n) xs)))"
    by (subst window_pad1 [OF assms(1)]) (simp add: sum_list_replicate_zero assms(2))
  also have "\<dots> = sum_list (map (\<lambda>q. f (xs ! q)) [k - n..<min (k + n + 1) (length xs)])"
    by (simp add: slice_nth comp_def)
  also have "\<dots> = (\<Sum>q = k - n..<min (k + n + 1) (length xs). f (xs ! q))"
    by (simp add: interv_sum_list_conv_sum_set_nat)
  finally show ?thesis .
qed

lemma array3_lengths:
  assumes "is_array3 a" and "shape3 a = (X, Y, Z)"
  shows "length a = X"
    and "p < X \<Longrightarrow> length (a ! p) = Y"
    and "p < X \<Longrightarrow> q < Y \<Longrightarrow> length (a ! p ! q) = Z"
proof -
  show X: "length a = X" using assms(2) by (simp add: shape3_def)
  have all: "\<forall>p\<in>set a. length p = Y \<and> (\<forall>r\<in>set p. length r = Z)"
    using assms by (simp add: is_array3_def list_all_iff)
  show Y: "length (a ! p) = Y" if "p < X" for p
    using all that X by simp
  show "length (a ! p ! q) = Z" if "p < X" "q < Y" for p q
    using all that X Y [OF that(1)] by (metis nth_mem)
qed


lemma asum_eq: "asum = (sum_list :: 'a::monoid_add list \<Rightarrow> 'a)"
  by (rule ext) (rule asum_sum_list)

lemma window3_sum:
  fixes a :: "'a::comm_monoid_add array3"
  assumes arr: "is_array3 a" and sh: "shape3 a = (X, Y, Z)"
    and i: "i < X" and j: "j < Y" and k: "k < Z"
  shows "sum3 (window3 (np_pad a n) (2 * n + 1) i j k) =
         (\<Sum>p = i - n..<min (i + n + 1) X. \<Sum>q = j - n..<min (j + n + 1) Y.
            \<Sum>r = k - n..<min (k + n + 1) Z. a ! p ! q ! r)"
proof -
  define zrow where "zrow = replicate (Z + 2 * n) (0::'a)"
  define zplane where "zplane = replicate (Y + 2 * n) zrow"
  define H where "H = (\<lambda>rw::'a list. sum_list (map (\<lambda>v. v) (take (2 * n + 1) (drop k rw))))"
  define F where "F = (\<lambda>pl. sum_list (map H (take (2 * n + 1) (drop j pl))))"
  define G where "G = (\<lambda>p. pad1 n zrow (map (pad1 n 0) p))"
  note len = array3_lengths [OF arr sh]
  have pad: "np_pad a n = pad1 n zplane (map G a)"
    by (simp add: np_pad_def sh Let_def zrow_def zplane_def G_def)
  have s3: "sum3 (window3 x (2 * n + 1) i j k) = sum_list (map F (take (2 * n + 1) (drop i x)))" for x
    by (simp add: sum3_def window3_def asum_eq F_def H_def comp_def)
  have Hz: "H zrow = 0"
    by (simp add: H_def zrow_def sum_list_replicate_zero)
  have Fz: "F zplane = 0"
    by (simp add: F_def zplane_def Hz sum_list_replicate_zero)
  have row: "H (pad1 n 0 r) = (\<Sum>r' = k - n..<min (k + n + 1) Z. r ! r')" if "length r = Z" for r
    unfolding H_def using window_sum_1d [of k r "\<lambda>v. v" 0 n] k that by simp
  have plane: "F (G p) = (\<Sum>q = j - n..<min (j + n + 1) Y. \<Sum>r = k - n..<min (k + n + 1) Z. p ! q ! r)"
    if Y: "length p = Y" and Z: "\<And>q. q < Y \<Longrightarrow> length (p ! q) = Z" for p
  proof -
    have "F (G p) = (\<Sum>q = j - n..<min (j + n + 1) (length (map (pad1 n 0) p)). H (map (pad1 n 0) p ! q))"
      unfolding F_def G_def using j Y by (intro window_sum_1d) (simp_all add: Hz)
    also have "\<dots> = (\<Sum>q = j - n..<min (j + n + 1) Y. \<Sum>r = k - n..<min (k + n + 1) Z. p ! q ! r)"
      using Y by (intro sum.cong) (simp_all add: row Z)
    finally show ?thesis .
  qed
  have "sum3 (window3 (np_pad a n) (2 * n + 1) i j k) =
        (\<Sum>p = i - n..<min (i + n + 1) (length (map G a)). F (map G a ! p))"
    unfolding s3 pad using i len(1) by (intro window_sum_1d) (simp_all add: Fz)
  also have "\<dots> = (\<Sum>p = i - n..<min (i + n + 1) X. \<Sum>q = j - n..<min (j + n + 1) Y.
            \<Sum>r = k - n..<min (k + n + 1) Z. a ! p ! q ! r)"
    using len by (intro sum.cong) (simp_all add: plane)
  finally show ?thesis .
qed


lemma shape3_np_pad:
  assumes arr: "is_array3 a" and sh: "shape3 a = (X, Y, Z)"
    and pos: "0 < X" "0 < Y" "0 < Z"
  shows "shape3 (np_pad a n) = (X + 2 * n, Y + 2 * n, Z + 2 * n)"
proof -
  note len = array3_lengths [OF arr sh]
  obtain p ps where a: "a = p # ps" using len(1) pos(1) by (cases a) auto
  have "length p = Y" using len(2) [of 0] pos(1) a by simp
  then obtain r rs where p: "p = r # rs" using pos(2) by (cases p) auto
  have "length r = Z" using len(3) [of 0 0] pos a p by simp
  then show ?thesis
    using a p \<open>length p = Y\<close> sh
    by (cases n) (simp_all add: np_pad_def shape3_def pad1_def Let_def)
qed

lemma map2_map_same: "map2 h (map f xs) (map g xs) = map (\<lambda>x. h (f x) (g x)) xs"
  by (induction xs) simp_all

lemma local_average_3d_eq:
  fixes a :: "'a::{zero,one,plus,inverse} array3"
  assumes arr: "is_array3 a" and sh: "shape3 a = (X, Y, Z)"
    and pos: "0 < X" "0 < Y" "0 < Z"
    and pad: "shape3 (np_pad a n) = (X + 2 * n, Y + 2 * n, Z + 2 * n)"
    and padm: "shape3 (np_pad (ones_like a :: 'a array3) n) = (X + 2 * n, Y + 2 * n, Z + 2 * n)"
  shows "local_average_3d a n =
         Inr (map (\<lambda>i. map (\<lambda>j. map (\<lambda>k.
               sum3 (window3 (np_pad a n) (2 * n + 1) i j k) /
               sum3 (window3 (np_pad (ones_like a) n) (2 * n + 1) i j k))
              [0..<Z]) [0..<Y]) [0..<X])"
  using pos
  by (simp add: local_average_3d_def Let_def sliding_window_view_def pad padm
      window_sums_def divide3_def map3_def map2_map_same comp_def)


lemma ones_like_array3:
  assumes "is_array3 a" and "shape3 a = (X, Y, Z)"
  shows "is_array3 (ones_like a)" and "shape3 (ones_like a) = (X, Y, Z)"
  using assms
  by (auto simp add: is_array3_def shape3_def ones_like_def map3_def list_all_iff
      split: list.splits)

lemma ones_like_nth:
  assumes "is_array3 a" and "shape3 a = (X, Y, Z)" and "p < X" and "q < Y" and "r < Z"
  shows "ones_like a ! p ! q ! r = 1"
  using array3_lengths [OF assms(1,2)] assms(3-5)
  by (simp add: ones_like_def map3_def)

lemma dist1_le: "dist1 i p \<le> n \<longleftrightarrow> i - n \<le> p \<and> p < i + n + 1"
  by (auto simp add: dist1_def)

lemma neighbours_set:
  "set (in_bounds_neighbours (X, Y, Z) n (i, j, k)) =
   {i - n..<min (i + n + 1) X} \<times> {j - n..<min (j + n + 1) Y} \<times> {k - n..<min (k + n + 1) Z}"
  by (auto simp add: in_bounds_neighbours_def dist1_le)

lemma neighbours_distinct: "distinct (in_bounds_neighbours (X, Y, Z) n (i, j, k))"
  by (simp add: in_bounds_neighbours_def distinct_product)

lemma neighbours_sum:
  fixes f :: "nat \<times> nat \<times> nat \<Rightarrow> 'a::comm_monoid_add"
  shows "(\<Sum>c\<leftarrow>in_bounds_neighbours (X, Y, Z) n (i, j, k). f c) =
         (\<Sum>p = i - n..<min (i + n + 1) X. \<Sum>q = j - n..<min (j + n + 1) Y.
            \<Sum>r = k - n..<min (k + n + 1) Z. f (p, q, r))"
proof -
  have "(\<Sum>c\<leftarrow>in_bounds_neighbours (X, Y, Z) n (i, j, k). f c) =
        sum f (set (in_bounds_neighbours (X, Y, Z) n (i, j, k)))"
    by (rule sum_list_distinct_conv_sum_set [OF neighbours_distinct])
  also have "\<dots> = (\<Sum>p = i - n..<min (i + n + 1) X.
      sum (\<lambda>qr. f (p, qr)) ({j - n..<min (j + n + 1) Y} \<times> {k - n..<min (k + n + 1) Z}))"
    unfolding neighbours_set by (simp add: sum.cartesian_product)
  also have "\<dots> = (\<Sum>p = i - n..<min (i + n + 1) X. \<Sum>q = j - n..<min (j + n + 1) Y.
            \<Sum>r = k - n..<min (k + n + 1) Z. f (p, q, r))"
    by (simp add: sum.cartesian_product)
  finally show ?thesis .
qed

lemma neighbours_length:
  "length (in_bounds_neighbours (X, Y, Z) n (i, j, k)) =
   (min (i + n + 1) X - (i - n)) * ((min (j + n + 1) Y - (j - n)) * (min (k + n + 1) Z - (k - n)))"
proof -
  have "length (in_bounds_neighbours (X, Y, Z) n (i, j, k)) =
        card (set (in_bounds_neighbours (X, Y, Z) n (i, j, k)))"
    by (rule distinct_card [OF neighbours_distinct, symmetric])
  then show ?thesis
    by (simp add: neighbours_set card_cartesian_product)
qed



lemma table3_shape:
  assumes "0 < X" and "0 < Y" and "0 < Z"
  shows "shape3 (map (\<lambda>i. map (\<lambda>j. map (g i j) [0..<Z]) [0..<Y]) [0..<X]) = (X, Y, Z)"
proof -
  have "[0..<X] = 0 # [1..<X]" "[0..<Y] = 0 # [1..<Y]" "[0..<Z] = 0 # [1..<Z]"
    using assms by (simp_all add: upt_conv_Cons)
  then have "shape3 (map (\<lambda>i. map (\<lambda>j. map (g i j) [0..<Z]) [0..<Y]) [0..<X]) =
             (length [0..<X], length [0..<Y], length [0..<Z])"
    by (simp add: shape3_def del: length_upt)
  then show ?thesis by simp
qed

lemma table3_array3:
  assumes "0 < X" and "0 < Y" and "0 < Z"
  shows "is_array3 (map (\<lambda>i. map (\<lambda>j. map (g i j) [0..<Z]) [0..<Y]) [0..<X])"
  by (simp add: is_array3_def table3_shape [OF assms] list_all_iff)

lemma local_average_3d_cell:
  fixes a :: "real array3"
  assumes arr: "is_array3 a" and sh: "shape3 a = (X, Y, Z)"
    and i: "i < X" and j: "j < Y" and k: "k < Z"
  shows "\<exists>out. local_average_3d a n = Inr out \<and> is_array3 out \<and> shape3 out = (X, Y, Z) \<and>
           out ! i ! j ! k =
             (\<Sum>c\<leftarrow>in_bounds_neighbours (X, Y, Z) n (i, j, k). cell_at a c) /
             real (length (in_bounds_neighbours (X, Y, Z) n (i, j, k)))"
proof -
  have pos: "0 < X" "0 < Y" "0 < Z" using i j k by simp_all
  have ones: "is_array3 (ones_like a :: real array3)"
    "shape3 (ones_like a :: real array3) = (X, Y, Z)"
    by (rule ones_like_array3 [OF arr sh])+
  let ?out = "map (\<lambda>i. map (\<lambda>j. map (\<lambda>k.
               sum3 (window3 (np_pad a n) (2 * n + 1) i j k) /
               sum3 (window3 (np_pad (ones_like a :: real array3) n) (2 * n + 1) i j k))
              [0..<Z]) [0..<Y]) [0..<X]"
  have run: "local_average_3d a n = Inr ?out"
    by (rule local_average_3d_eq [OF arr sh pos shape3_np_pad [OF arr sh pos]
          shape3_np_pad [OF ones pos]])
  have num: "sum3 (window3 (np_pad a n) (2 * n + 1) i j k) =
             (\<Sum>c\<leftarrow>in_bounds_neighbours (X, Y, Z) n (i, j, k). cell_at a c)"
    unfolding window3_sum [OF arr sh i j k] neighbours_sum by simp
  have "sum3 (window3 (np_pad (ones_like a :: real array3) n) (2 * n + 1) i j k) =
        (\<Sum>p = i - n..<min (i + n + 1) X. \<Sum>q = j - n..<min (j + n + 1) Y.
            \<Sum>r = k - n..<min (k + n + 1) Z. 1)"
    unfolding window3_sum [OF ones i j k]
    by (intro sum.cong refl) (simp add: ones_like_nth [OF arr sh])
  then have den: "sum3 (window3 (np_pad (ones_like a :: real array3) n) (2 * n + 1) i j k) =
        real (length (in_bounds_neighbours (X, Y, Z) n (i, j, k)))"
    by (simp add: neighbours_length)
  have "?out ! i ! j ! k =
          sum3 (window3 (np_pad a n) (2 * n + 1) i j k) /
          sum3 (window3 (np_pad (ones_like a :: real array3) n) (2 * n + 1) i j k)"
    using i j k by simp
  then have "?out ! i ! j ! k =
          (\<Sum>c\<leftarrow>in_bounds_neighbours (X, Y, Z) n (i, j, k). cell_at a c) /
          real (length (in_bounds_neighbours (X, Y, Z) n (i, j, k)))"
    by (simp only: num den)
  moreover have "is_array3 ?out" by (rule table3_array3 [OF pos])
  moreover have "shape3 ?out = (X, Y, Z)" by (rule table3_shape [OF pos])
  ultimately show ?thesis using run by (intro exI [of _ ?out]) simp
qed








section \<open>Properties of the min-max normalisation\<close>

lemma flat3_map3: "flat3 (map3 f a) = map f (flat3 a)"
  by (simp add: flat3_def map3_def map_concat comp_def)

lemma fmin_Fin: "fmin (Fin a) (Fin b) = Fin (min a b)"
  by (simp add: fmin_def min_def)

lemma fmax_Fin: "fmax (Fin a) (Fin b) = Fin (max a b)"
  by (simp add: fmax_def max_def)

lemma foldl_fmin_Fin: "foldl fmin (Fin v) (map Fin vs) = Fin (fold min vs v)"
  by (induction vs arbitrary: v) (simp_all add: fmin_Fin min.commute)

lemma foldl_fmax_Fin: "foldl fmax (Fin v) (map Fin vs) = Fin (fold max vs v)"
  by (induction vs arbitrary: v) (simp_all add: fmax_Fin max.commute)

lemma np_min_Fin:
  assumes "flat3 r \<noteq> []"
  shows "np_min (map3 Fin r) = Inr (Fin (Min (set (flat3 r))))"
proof -
  obtain v vs where vs: "flat3 r = v # vs" using assms by (cases "flat3 r") auto
  have "Min (set (flat3 r)) = fold min vs v"
    unfolding vs by (rule Min.set_eq_fold)
  then show ?thesis
    by (simp add: np_min_def flat3_map3 foldl_fmin_Fin vs)
qed

lemma np_max_Fin:
  assumes "flat3 r \<noteq> []"
  shows "np_max (map3 Fin r) = Inr (Fin (Max (set (flat3 r))))"
proof -
  obtain v vs where vs: "flat3 r = v # vs" using assms by (cases "flat3 r") auto
  have "Max (set (flat3 r)) = fold max vs v"
    unfolding vs by (rule Max.set_eq_fold)
  then show ?thesis
    by (simp add: np_max_def flat3_map3 foldl_fmax_Fin vs)
qed

lemma map3_cong_flat:
  assumes "\<And>v. v \<in> set (flat3 a) \<Longrightarrow> f v = g v"
  shows "map3 f a = map3 g a"
  using assms unfolding map3_def flat3_def by (auto intro!: map_cong)

lemma map3_map3: "map3 f (map3 g a) = map3 (\<lambda>v. f (g v)) a"
  by (simp add: map3_def comp_def)

lemma minmax_normalize_Fin:
  assumes ne: "flat3 r \<noteq> []"
  shows "minmax_normalize (map3 Fin r) =
         Inr (map3 (\<lambda>v. Fin (v - Min (set (flat3 r))) /
                       Fin (Max (set (flat3 r)) - Min (set (flat3 r)))) r)"
  by (simp add: minmax_normalize_def np_min_Fin [OF ne] np_max_Fin [OF ne] map3_map3
      minus_fval_def)

lemma normalize_flat_grid_nan:
  assumes ne: "flat3 r \<noteq> []" and flat: "Min (set (flat3 r)) = Max (set (flat3 r))"
  shows "minmax_normalize (map3 Fin r) = Inr (map3 (\<lambda>_. NaN) r)"
proof -
  have "v = Min (set (flat3 r))" if "v \<in> set (flat3 r)" for v
  proof -
    have "Min (set (flat3 r)) \<le> v" "v \<le> Max (set (flat3 r))" using that by simp_all
    then show ?thesis using flat by simp
  qed
  then have "map3 (\<lambda>v. Fin (v - Min (set (flat3 r))) /
                       Fin (Max (set (flat3 r)) - Min (set (flat3 r)))) r = map3 (\<lambda>_. NaN) r"
    using flat by (intro map3_cong_flat) simp
  then show ?thesis by (simp add: minmax_normalize_Fin [OF ne])
qed

lemma minmax_normalize_range:
  assumes ne: "flat3 r \<noteq> []" and lt: "Min (set (flat3 r)) < Max (set (flat3 r))"
  shows "\<exists>r'. minmax_normalize (map3 Fin r) = Inr (map3 Fin r') \<and>
           np_min (map3 Fin r') = Inr (Fin 0) \<and> np_max (map3 Fin r') = Inr (Fin 1)"
proof -
  define lo where "lo = Min (set (flat3 r))"
  define hi where "hi = Max (set (flat3 r))"
  define g where "g = (\<lambda>v. (v - lo) / (hi - lo))"
  define r' where "r' = map3 g r"
  have d: "0 < hi - lo" using lt by (simp add: lo_def hi_def)
  have run: "minmax_normalize (map3 Fin r) = Inr (map3 Fin r')"
    using d by (simp add: minmax_normalize_Fin [OF ne] r'_def g_def lo_def hi_def map3_map3)
  have fl: "flat3 r' = map g (flat3 r)" by (simp add: r'_def flat3_map3)
  then have ne': "flat3 r' \<noteq> []" using ne by simp
  have lo_in: "lo \<in> set (flat3 r)" unfolding lo_def using ne by (intro Min_in) simp_all
  have hi_in: "hi \<in> set (flat3 r)" unfolding hi_def using ne by (intro Max_in) simp_all
  have bounds: "0 \<le> g v \<and> g v \<le> 1" if "v \<in> set (flat3 r)" for v
  proof -
    have "lo \<le> v" "v \<le> hi" using that by (simp_all add: lo_def hi_def)
    then show ?thesis using d by (simp add: g_def)
  qed
  have "g lo = 0" by (simp add: g_def)
  then have "0 \<in> set (flat3 r')" using lo_in fl by force
  then have mn: "Min (set (flat3 r')) = 0"
    using bounds fl by (intro Min_eqI) auto
  have "g hi = 1" using d by (simp add: g_def)
  then have "1 \<in> set (flat3 r')" using hi_in fl by force
  then have mx: "Max (set (flat3 r')) = 1"
    using bounds fl by (intro Max_eqI) auto
  show ?thesis
    using run np_min_Fin [OF ne'] np_max_Fin [OF ne'] mn mx by (intro exI [of _ r']) simp
qed

section \<open>Properties of the binning\<close>

lemma linspace_edges:
  assumes "0 < g"
  shows "linspace 0 a (Suc g) = map (\<lambda>i. real i * (a / real g)) [0..<Suc g]"
  using assms by (simp add: linspace_def)

lemma linspace_length: "0 < g \<Longrightarrow> length (linspace 0 a (Suc g)) = Suc g"
  by (simp add: linspace_edges)

lemma linspace_nth:
  "0 < g \<Longrightarrow> m \<le> g \<Longrightarrow> linspace 0 a (Suc g) ! m = real m * (a / real g)"
  by (simp add: linspace_edges nth_append)

lemma linspace_last: "0 < g \<Longrightarrow> last (linspace 0 a (Suc g)) = a"
  by (simp add: linspace_edges)

lemma linspace_mono:
  assumes "0 < g" and "0 \<le> a" and "i \<le> j" and "j \<le> g"
  shows "linspace 0 a (Suc g) ! i \<le> linspace 0 a (Suc g) ! j"
  using assms by (simp add: linspace_nth mult_right_mono divide_right_mono)


lemma linspace_sorted:
  assumes "0 < g" and "0 \<le> a"
  shows "sorted (linspace 0 a (Suc g))"
  unfolding sorted_iff_nth_mono
  using linspace_mono [OF assms] by (simp add: linspace_length [OF assms(1)])

lemma searchsorted_right_eq:
  assumes srt: "sorted es" and m: "m < length es" and le: "es ! m \<le> x"
    and gt: "m + 1 < length es \<Longrightarrow> x < es ! (m + 1)"
  shows "searchsorted_right es x = m + 1"
proof -
  let ?t = "takeWhile (\<lambda>e. e \<le> x) es"
  have "es ! i \<le> x" if "i < m + 1" for i
  proof -
    have "es ! i \<le> es ! m" using srt that m by (simp add: sorted_iff_nth_mono)
    then show ?thesis using le by simp
  qed
  then have lower: "m + 1 \<le> length ?t"
    using m by (intro length_takeWhile_less_P_nth) simp_all
  have "\<not> m + 1 < length ?t"
  proof
    assume less: "m + 1 < length ?t"
    have "length ?t \<le> length es" by (rule length_takeWhile_le)
    then have "m + 1 < length es" using less by simp
    then have "x < es ! (m + 1)" by (rule gt)
    moreover have "?t ! (m + 1) = es ! (m + 1)" using less by (rule takeWhile_nth)
    moreover have "?t ! (m + 1) \<in> set ?t" using less by simp
    then have "?t ! (m + 1) \<le> x" by (auto dest: set_takeWhileD)
    ultimately show False by simp
  qed
  with lower show ?thesis by (simp add: searchsorted_right_def)
qed

lemma searchsorted_right_bounds:
  assumes "es \<noteq> []" and "es ! 0 \<le> x" and "x < last es"
  shows "1 \<le> searchsorted_right es x \<and> searchsorted_right es x < length es"
proof -
  let ?t = "takeWhile (\<lambda>e. e \<le> x) es"
  have "1 \<le> length ?t"
    using assms(1,2) by (intro length_takeWhile_less_P_nth) (simp_all add: Suc_le_eq)
  moreover have "length ?t \<noteq> length es"
  proof
    assume "length ?t = length es"
    then have "?t = es" by (metis takeWhile_eq_take take_all order_refl)
    then have "\<forall>e\<in>set es. e \<le> x" by (simp add: takeWhile_eq_all_conv)
    then have "last es \<le> x" using assms(1) by simp
    with assms(3) show False by simp
  qed
  moreover have "length ?t \<le> length es" by (rule length_takeWhile_le)
  ultimately show ?thesis by (simp add: searchsorted_right_def)
qed



lemma bin_number_right_edge:
  assumes g: "0 < g" and a: "0 \<le> a"
  shows "bin_number (linspace 0 a (Suc g)) a = g"
proof -
  let ?es = "linspace 0 a (Suc g)"
  have "searchsorted_right ?es a = g + 1"
    using g a
    by (intro searchsorted_right_eq linspace_sorted) (simp_all add: linspace_length linspace_nth)
  then show ?thesis using g by (simp add: bin_number_def linspace_last)
qed

lemma bin_number_in_cell:
  assumes g: "0 < g" and a: "0 \<le> a" and x: "0 \<le> x" "x \<le> a"
  shows "1 \<le> bin_number (linspace 0 a (Suc g)) x \<and> bin_number (linspace 0 a (Suc g)) x \<le> g"
proof (cases "x = a")
  case True
  then show ?thesis using bin_number_right_edge [OF g a] g by simp
next
  case False
  let ?es = "linspace 0 a (Suc g)"
  have ne: "?es \<noteq> []" using linspace_length [OF g, of a] by auto
  have "?es ! 0 \<le> x" using g x by (simp add: linspace_nth)
  moreover have "x < last ?es" using False x g by (simp add: linspace_last)
  ultimately have "1 \<le> searchsorted_right ?es x \<and> searchsorted_right ?es x < length ?es"
    using ne by (intro searchsorted_right_bounds) simp_all
  then show ?thesis using False g by (simp add: bin_number_def linspace_last linspace_length)
qed

lemma indicator_sum:
  assumes "1 \<le> (b::nat)" and "b \<le> g"
  shows "(\<Sum>r = 0..<g. if A \<and> b = r + 1 then 1 else 0::nat) = (if A then 1 else 0)"
proof -
  have "(\<Sum>r = 0..<g. if A \<and> b = r + 1 then 1 else 0::nat) =
        (\<Sum>r = 0..<g. if r = b - 1 then (if A then 1 else 0) else 0)"
    using assms by (intro sum.cong) auto
  also have "\<dots> = (if A then 1 else 0)"
  proof -
    have "b - 1 < g" using assms by arith
    then show ?thesis by simp
  qed
  finally show ?thesis .
qed

lemma bin_count_Cons:
  "bin_count (ex, ey, ez) ((x, y, z) # cs) p q r =
   (if bin_number ex x = p + 1 \<and> bin_number ey y = q + 1 \<and> bin_number ez z = r + 1
    then 1 else 0) + bin_count (ex, ey, ez) cs p q r"
  by (simp add: bin_count_def)

lemma bin_count_total:
  assumes "\<And>x y z. (x, y, z) \<in> set cs \<Longrightarrow>
     1 \<le> bin_number ex x \<and> bin_number ex x \<le> gx \<and>
     1 \<le> bin_number ey y \<and> bin_number ey y \<le> gy \<and>
     1 \<le> bin_number ez z \<and> bin_number ez z \<le> gz"
  shows "(\<Sum>p = 0..<gx. \<Sum>q = 0..<gy. \<Sum>r = 0..<gz. bin_count (ex, ey, ez) cs p q r) = length cs"
  using assms
proof (induction cs)
  case Nil
  show ?case by (simp add: bin_count_def)
next
  case (Cons c cs)
  obtain x y z where c: "c = (x, y, z)" by (cases c) auto
  have b: "1 \<le> bin_number ex x" "bin_number ex x \<le> gx"
     "1 \<le> bin_number ey y" "bin_number ey y \<le> gy"
     "1 \<le> bin_number ez z" "bin_number ez z \<le> gz"
    using Cons.prems [of x y z] c by simp_all
  have one: "(\<Sum>p = 0..<gx. \<Sum>q = 0..<gy. \<Sum>r = 0..<gz.
      if bin_number ex x = p + 1 \<and> bin_number ey y = q + 1 \<and> bin_number ez z = r + 1
      then 1 else 0::nat) = 1"
  proof -
    have "(\<Sum>p = 0..<gx. \<Sum>q = 0..<gy. \<Sum>r = 0..<gz.
      if (bin_number ex x = p + 1 \<and> bin_number ey y = q + 1) \<and> bin_number ez z = r + 1
      then 1 else 0::nat) =
      (\<Sum>p = 0..<gx. \<Sum>q = 0..<gy.
         if bin_number ex x = p + 1 \<and> bin_number ey y = q + 1 then 1 else 0)"
      by (simp only: indicator_sum [OF b(5,6)])
    also have "\<dots> = (\<Sum>p = 0..<gx. if bin_number ex x = p + 1 then 1 else 0)"
      by (simp only: indicator_sum [OF b(3,4)])
    also have "\<dots> = (\<Sum>p = 0..<gx. if True \<and> bin_number ex x = p + 1 then 1 else 0)"
      by simp
    also have "\<dots> = 1"
      by (simp only: indicator_sum [OF b(1,2)] if_True)
    finally show ?thesis by (simp only: conj_assoc)
  qed
  have rest: "(\<Sum>p = 0..<gx. \<Sum>q = 0..<gy. \<Sum>r = 0..<gz. bin_count (ex, ey, ez) cs p q r) = length cs"
    by (rule Cons.IH) (rule Cons.prems, simp)
  show ?case
    unfolding c bin_count_Cons sum.distrib one rest by simp
qed


lemma asum_Fin: "asum (map Fin xs) = Fin (sum_list xs)"
  by (induction xs) (simp_all add: asum_def zero_fval_def)

lemma asum_row_Fin: "asum (map (\<lambda>r. Fin (f r)) [0..<Z]) = Fin (\<Sum>r = 0..<Z. f r)"
proof -
  have "asum (map (\<lambda>r. Fin (f r)) [0..<Z]) = asum (map Fin (map f [0..<Z]))"
    by (simp add: comp_def)
  also have "\<dots> = Fin (sum_list (map f [0..<Z]))" by (rule asum_Fin)
  finally show ?thesis by (simp add: interv_sum_list_conv_sum_set_nat)
qed

lemma sum3_table_Fin:
  "sum3 (map (\<lambda>p. map (\<lambda>q. map (\<lambda>r. Fin (f p q r)) [0..<Z]) [0..<Y]) [0..<X]) =
   Fin (\<Sum>p = 0..<X. \<Sum>q = 0..<Y. \<Sum>r = 0..<Z. f p q r)"
  by (simp add: sum3_def comp_def asum_row_Fin)

lemma histogramdd_linspace:
  assumes g: "0 < g" and cell: "0 \<le> a" "0 \<le> b" "0 \<le> c" and ne: "sample \<noteq> []"
  shows "histogramdd sample (linspace 0 a (Suc g), linspace 0 b (Suc g), linspace 0 c (Suc g)) =
         Inr (map (\<lambda>p. map (\<lambda>q. map (\<lambda>r.
           Fin (real (bin_count
             (linspace 0 a (Suc g), linspace 0 b (Suc g), linspace 0 c (Suc g)) sample p q r)))
           [0..<g]) [0..<g]) [0..<g])"
  using ne linspace_sorted [OF g cell(1)] linspace_sorted [OF g cell(2)]
    linspace_sorted [OF g cell(3)]
  by (simp add: histogramdd_def linspace_length [OF g])

lemma density_estimator_cells:
  assumes g: "0 < g" and cell: "0 \<le> a" "0 \<le> b" "0 \<le> c" and ne: "coords \<noteq> []"
    and inside: "\<And>x y z. (x, y, z) \<in> set coords \<Longrightarrow>
                   0 \<le> x \<and> x \<le> a \<and> 0 \<le> y \<and> y \<le> b \<and> 0 \<le> z \<and> z \<le> c"
  shows "density_estimator coords (a, b, c) g =
         Inr (map (\<lambda>p. map (\<lambda>q. map (\<lambda>r.
           Fin (real (bin_count
             (linspace 0 a (Suc g), linspace 0 b (Suc g), linspace 0 c (Suc g)) coords p q r) /
                real (length coords)))
           [0..<g]) [0..<g]) [0..<g])"
proof -
  let ?edges = "(linspace 0 a (Suc g), linspace 0 b (Suc g), linspace 0 c (Suc g))"
  let ?hist = "map (\<lambda>p. map (\<lambda>q. map (\<lambda>r. Fin (real (bin_count ?edges coords p q r)))
                 [0..<g]) [0..<g]) [0..<g]"
  have total: "(\<Sum>p = 0..<g. \<Sum>q = 0..<g. \<Sum>r = 0..<g. bin_count ?edges coords p q r) =
               length coords"
    using inside bin_number_in_cell [OF g]
    by (intro bin_count_total) (simp add: cell)
  have "sum3 ?hist =
        Fin (\<Sum>p = 0..<g. \<Sum>q = 0..<g. \<Sum>r = 0..<g. real (bin_count ?edges coords p q r))"
    by (rule sum3_table_Fin)
  also have "(\<Sum>p = 0..<g. \<Sum>q = 0..<g. \<Sum>r = 0..<g. real (bin_count ?edges coords p q r)) =
             real (\<Sum>p = 0..<g. \<Sum>q = 0..<g. \<Sum>r = 0..<g. bin_count ?edges coords p q r)"
    by simp
  finally have s: "sum3 ?hist = Fin (real (length coords))" by (simp only: total)
  have n: "real (length coords) \<noteq> 0" using ne by simp
  have "density_estimator coords (a, b, c) g = Inr (map3 (\<lambda>h. h / sum3 ?hist) ?hist)"
    by (simp add: density_estimator_def histogramdd_linspace [OF g cell ne] Let_def)
  then show ?thesis
    unfolding s using n by (simp add: map3_def comp_def)
qed

lemma density_estimator_total:
  assumes g: "0 < g" and cell: "0 \<le> a" "0 \<le> b" "0 \<le> c" and ne: "coords \<noteq> []"
    and inside: "\<And>x y z. (x, y, z) \<in> set coords \<Longrightarrow>
                   0 \<le> x \<and> x \<le> a \<and> 0 \<le> y \<and> y \<le> b \<and> 0 \<le> z \<and> z \<le> c"
  shows "\<exists>d. density_estimator coords (a, b, c) g = Inr d \<and> is_array3 d \<and>
           shape3 d = (g, g, g) \<and> sum3 d = Fin 1"
proof -
  let ?edges = "(linspace 0 a (Suc g), linspace 0 b (Suc g), linspace 0 c (Suc g))"
  let ?d = "map (\<lambda>p. map (\<lambda>q. map (\<lambda>r.
           Fin (real (bin_count ?edges coords p q r) / real (length coords)))
           [0..<g]) [0..<g]) [0..<g]"
  have total: "(\<Sum>p = 0..<g. \<Sum>q = 0..<g. \<Sum>r = 0..<g. bin_count ?edges coords p q r) =
               length coords"
    using inside bin_number_in_cell [OF g]
    by (intro bin_count_total) (simp add: cell)
  have "sum3 ?d = Fin (\<Sum>p = 0..<g. \<Sum>q = 0..<g. \<Sum>r = 0..<g.
           real (bin_count ?edges coords p q r) / real (length coords))"
    by (rule sum3_table_Fin)
  also have "(\<Sum>p = 0..<g. \<Sum>q = 0..<g. \<Sum>r = 0..<g.
           real (bin_count ?edges coords p q r) / real (length coords)) =
        real (\<Sum>p = 0..<g. \<Sum>q = 0..<g. \<Sum>r = 0..<g. bin_count ?edges coords p q r) /
        real (length coords)"
    by (simp add: sum_divide_distrib)
  also have "\<dots> = 1" unfolding total using ne by simp
  finally have "sum3 ?d = Fin 1" .
  moreover have "is_array3 ?d" by (rule table3_array3 [OF g g g])
  moreover have "shape3 ?d = (g, g, g)" by (rule table3_shape [OF g g g])
  moreover have "density_estimator coords (a, b, c) g = Inr ?d"
    by (rule density_estimator_cells [OF g cell ne inside])
  ultimately show ?thesis by (intro exI [of _ ?d]) simp
qed

section \<open>Properties of the estimator and of the orchestrator\<close>

lemma density_estimator_empty: "density_estimator [] cell g = Inl ValueError"
  by (cases cell) (simp add: density_estimator_def histogramdd_def Let_def)

lemma make_prob_density_parsed:
  assumes "files pdb_filename = Some lines"
    and "read_cell fl lines = Inr cell"
    and "read_coords fl atm False [] lines = Inr coords"
  shows "make_prob_density fl files pdb_filename atm grid_size =
         density_estimator coords cell grid_size"
  using assms by (simp add: make_prob_density_def)


lemma get_filtered_prob_density_result:
  assumes "get_filtered_prob_density fl files write pdb_before pdb_after grid_size cell_a atm
             padding_n s0 = (Inr v, s')"
  shows "v = 0"
  using assms unfolding get_filtered_prob_density_def Let_def
  by (auto split: sum.splits option.splits prod.splits)

lemma get_filtered_prob_density_writes:
  assumes ok: "\<And>name cell grid s. fst (write name cell grid s) = None"
  shows "(\<exists>e. get_filtered_prob_density fl files write pdb_before pdb_after grid_size cell_a atm
               padding_n s0 = (Inl e, s0)) \<or>
         (\<exists>before after diff filtered s1 s2 s3 s4.
            write (''prob_density_'' @ atm @ ''_before_step.cube'') cell_a before s0 = (None, s1) \<and>
            write (''prob_density_'' @ atm @ ''_after_step.cube'') cell_a after s1 = (None, s2) \<and>
            write (''prob_density_'' @ atm @ ''_difference.cube'') cell_a diff s2 = (None, s3) \<and>
            write (''prob_density_'' @ atm @ ''_difference_filtered.cube'') cell_a filtered s3 =
              (None, s4) \<and>
            get_filtered_prob_density fl files write pdb_before pdb_after grid_size cell_a atm
               padding_n s0 = (Inr 0, s4))"
proof -
  let ?run = "get_filtered_prob_density fl files write pdb_before pdb_after grid_size cell_a atm
               padding_n s0"
  have w: "\<exists>s'. write name cell grid s = (None, s')" for name cell grid s
    using ok [of name cell grid s] by (cases "write name cell grid s") simp
  show ?thesis
  proof (cases "make_prob_density fl files pdb_before atm grid_size")
    case (Inl e)
    then have "?run = (Inl e, s0)" by (simp add: get_filtered_prob_density_def)
    then show ?thesis by blast
  next
    case db: (Inr density_before)
    show ?thesis
    proof (cases "make_prob_density fl files pdb_after atm grid_size")
      case (Inl e)
      then have "?run = (Inl e, s0)" using db by (simp add: get_filtered_prob_density_def)
      then show ?thesis by blast
    next
      case da: (Inr density_after)
      show ?thesis
      proof (cases "minmax_normalize density_before")
        case (Inl e)
        then have "?run = (Inl e, s0)" using db da by (simp add: get_filtered_prob_density_def)
        then show ?thesis by blast
      next
        case nb: (Inr before)
        show ?thesis
        proof (cases "minmax_normalize density_after")
          case (Inl e)
          then have "?run = (Inl e, s0)"
            using db da nb by (simp add: get_filtered_prob_density_def)
          then show ?thesis by blast
        next
          case na: (Inr after)
          show ?thesis
          proof (cases "local_average_3d (minus3 after before) padding_n")
            case (Inl e)
            then have "?run = (Inl e, s0)"
              using db da nb na by (simp add: get_filtered_prob_density_def)
            then show ?thesis by blast
          next
            case fl: (Inr filtered)
            obtain s1 where s1: "write (''prob_density_'' @ atm @ ''_before_step.cube'') cell_a
                before s0 = (None, s1)" using w by blast
            obtain s2 where s2: "write (''prob_density_'' @ atm @ ''_after_step.cube'') cell_a
                after s1 = (None, s2)" using w by blast
            obtain s3 where s3: "write (''prob_density_'' @ atm @ ''_difference.cube'') cell_a
                (minus3 after before) s2 = (None, s3)" using w by blast
            obtain s4 where s4: "write (''prob_density_'' @ atm @ ''_difference_filtered.cube'')
                cell_a filtered s3 = (None, s4)" using w by blast
            have "?run = (Inr 0, s4)"
              unfolding get_filtered_prob_density_def Let_def
              by (simp only: db da nb na fl s1 s2 s3 s4 sum.case prod.case option.case)
            with s1 s2 s3 s4 show ?thesis by blast
          qed
        qed
      qed
    qed
  qed
qed

section \<open>The example files, parsed\<close>

lemma example_before_parsed:
  "example_files ''before.pdb'' = Some example_before"
  "read_cell example_float example_before = Inr (10, 10, 10)"
  "read_coords example_float ''Ar'' False [] example_before = Inr [(1, 1, 1), (5, 5, 5)]"
  by code_simp+

lemma example_no_argon_parsed:
  "example_files ''no_argon.pdb'' = Some example_no_argon"
  "read_cell example_float example_no_argon = Inr (10, 10, 10)"
  "read_coords example_float ''Ar'' False [] example_no_argon = Inr []"
  by code_simp+

lemma example_run:
  "get_filtered_prob_density example_float example_files recording_writer
       ''before.pdb'' ''after.pdb'' 2 10 ''Ar'' 1 [] =
     (Inr 0,
      [(''prob_density_Ar_before_step.cube'',
        [[[Fin 1, Fin 0], [Fin 0, Fin 0]], [[Fin 0, Fin 0], [Fin 0, Fin 1]]]),
       (''prob_density_Ar_after_step.cube'',
        [[[Fin (1 / 2), Fin 0], [Fin 0, Fin 0]], [[Fin 0, Fin 1], [Fin 0, Fin 0]]]),
       (''prob_density_Ar_difference.cube'',
        [[[Fin (- (1 / 2)), Fin 0], [Fin 0, Fin 0]], [[Fin 0, Fin 1], [Fin 0, Fin (- 1)]]]),
       (''prob_density_Ar_difference_filtered.cube'',
        [[[Fin (- (1 / 16)), Fin (- (1 / 16))], [Fin (- (1 / 16)), Fin (- (1 / 16))]],
         [[Fin (- (1 / 16)), Fin (- (1 / 16))], [Fin (- (1 / 16)), Fin (- (1 / 16))]]])])"
  by code_simp

section \<open>Claims about the smoothing filter\<close>

text \<open>
  C1. For every three-dimensional array and every radius, the filter returns an array of the
  same shape whose value at each cell is the sum of the in-bounds cells within Chebyshev
  distance \<open>n\<close> of it, divided by the number of those cells, and not by the volume
  \<open>(2n+1)\<^sup>3\<close> of the window. The one-dimensional array \<open>[1,2,3,4,5]\<close>, laid along the
  first or the last axis of a three-dimensional array, is filtered with \<open>n = 1\<close> to \<open>1.5\<close>
  at index 0 and to \<open>3.0\<close> at index 2.
\<close>

theorem local_average_3d_in_bounds_mean:
  fixes a :: "real array3"
  assumes "is_array3 a" and "shape3 a = (X, Y, Z)"
    and "i < X" and "j < Y" and "k < Z"
  shows "(\<exists>out. local_average_3d a n = Inr out \<and> shape3 out = (X, Y, Z) \<and>
            out ! i ! j ! k =
              (\<Sum>c\<leftarrow>in_bounds_neighbours (X, Y, Z) n (i, j, k). cell_at a c) /
              real (length (in_bounds_neighbours (X, Y, Z) n (i, j, k)))) \<and>
         local_average_3d [[[1]], [[2]], [[3]], [[4]], [[5::real]]] 1 =
           Inr [[[3 / 2]], [[2]], [[3]], [[4]], [[9 / 2]]] \<and>
         local_average_3d [[[1, 2, 3, 4, 5::real]]] 1 = Inr [[[3 / 2, 2, 3, 4, 9 / 2]]]"
proof -
  have "local_average_3d [[[1]], [[2]], [[3]], [[4]], [[5::real]]] 1 =
          Inr [[[3 / 2]], [[2]], [[3]], [[4]], [[9 / 2]]]"
    by code_simp
  moreover have "local_average_3d [[[1, 2, 3, 4, 5::real]]] 1 = Inr [[[3 / 2, 2, 3, 4, 9 / 2]]]"
    by code_simp
  ultimately show ?thesis using local_average_3d_cell [OF assms, of n] by blast
qed

theorem local_average_3d_in_bounds_mean_witness:
  "is_array3 [[[1, 2], [3, 4]], [[5, 6], [7, 8::real]]] \<and>
   shape3 [[[1, 2], [3, 4]], [[5, 6], [7, 8::real]]] = (2, 2, 2) \<and>
   (\<exists>out. local_average_3d [[[1, 2], [3, 4]], [[5, 6], [7, 8::real]]] 1 = Inr out \<and>
      out ! 0 ! 0 ! 0 = 9 / 2)"
proof -
  have arr: "is_array3 [[[1, 2], [3, 4]], [[5, 6], [7, 8::real]]]"
    by (simp add: is_array3_def shape3_def)
  have sh: "shape3 [[[1, 2], [3, 4]], [[5, 6], [7, 8::real]]] = (2, 2, 2)"
    by (simp add: shape3_def)
  have nb: "in_bounds_neighbours (2, 2, 2) 1 (0, 0, 0) =
      [(0, 0, 0), (0, 0, 1), (0, 1, 0), (0, 1, 1), (1, 0, 0), (1, 0, 1), (1, 1, 0), (1, 1, 1)]"
    by code_simp
  from local_average_3d_in_bounds_mean [OF arr sh, of 0 0 0 1]
  obtain out where run: "local_average_3d [[[1, 2], [3, 4]], [[5, 6], [7, 8::real]]] 1 = Inr out"
    and cell: "out ! 0 ! 0 ! 0 =
      (\<Sum>c\<leftarrow>in_bounds_neighbours (2, 2, 2) 1 (0, 0, 0).
         cell_at [[[1, 2], [3, 4]], [[5, 6], [7, 8::real]]] c) /
      real (length (in_bounds_neighbours (2, 2, 2) 1 (0, 0, 0)))"
    by auto
  have "out ! 0 ! 0 ! 0 = 9 / 2"
    unfolding cell nb by simp
  with run arr sh show ?thesis by simp
qed






section \<open>Claims about the density estimator\<close>

text \<open>
  C2. For every unit cell with positive edges \<open>a\<close>, \<open>b\<close>, \<open>c\<close>, every \<open>grid_size\<close> of at
  least one and every non-empty list of coordinates inside the cell (its faces included, so
  the coordinates strictly inside are covered), \<open>make_prob_density\<close> returns a grid of
  \<open>grid_size\<close> bins per axis whose cells sum to 1. The arithmetic is exact, so the sum is 1
  itself.
\<close>

theorem make_prob_density_sums_to_one:
  assumes "files pdb_filename = Some lines"
    and "read_cell fl lines = Inr (a, b, c)"
    and "read_coords fl atm False [] lines = Inr coords"
    and "0 < a" and "0 < b" and "0 < c" and "0 < grid_size" and "coords \<noteq> []"
    and "\<forall>(x, y, z)\<in>set coords. 0 \<le> x \<and> x \<le> a \<and> 0 \<le> y \<and> y \<le> b \<and> 0 \<le> z \<and> z \<le> c"
  shows "\<exists>d. make_prob_density fl files pdb_filename atm grid_size = Inr d \<and>
           shape3 d = (grid_size, grid_size, grid_size) \<and> sum3 d = Fin 1"
proof -
  have "\<exists>d. density_estimator coords (a, b, c) grid_size = Inr d \<and> is_array3 d \<and>
           shape3 d = (grid_size, grid_size, grid_size) \<and> sum3 d = Fin 1"
    using assms(4-9) by (intro density_estimator_total) auto
  moreover have "make_prob_density fl files pdb_filename atm grid_size =
      density_estimator coords (a, b, c) grid_size"
    using assms(1-3) by (simp add: make_prob_density_def)
  ultimately show ?thesis by auto
qed

theorem make_prob_density_sums_to_one_witness:
  "example_files ''before.pdb'' = Some example_before \<and>
   read_cell example_float example_before = Inr (10, 10, 10) \<and>
   read_coords example_float ''Ar'' False [] example_before = Inr [(1, 1, 1), (5, 5, 5)] \<and>
   (\<exists>d. make_prob_density example_float example_files ''before.pdb'' ''Ar'' 2 = Inr d \<and>
      shape3 d = (2, 2, 2) \<and> sum3 d = Fin 1)"
  using make_prob_density_sums_to_one [where files = example_files
      and pdb_filename = "''before.pdb''" and lines = example_before and fl = example_float
      and a = 10 and b = 10 and c = 10 and atm = "''Ar''"
      and coords = "[(1, 1, 1), (5, 5, 5)]" and grid_size = 2]
    example_before_parsed
  by simp

text \<open>
  C3. When the file holds no atom of the target element, so that the parser returns the
  empty list of coordinates, \<open>make_prob_density\<close> fails with an error and returns no grid: the
  error is the ValueError that \<open>histogramdd\<close> raises on the empty sample, whenever the cell
  header itself can be read.
\<close>

theorem make_prob_density_empty_selection:
  assumes "files pdb_filename = Some lines"
    and "read_coords fl atm False [] lines = Inr []"
  shows "(\<exists>e. make_prob_density fl files pdb_filename atm grid_size = Inl e) \<and>
         (\<forall>cell. read_cell fl lines = Inr cell \<longrightarrow>
            make_prob_density fl files pdb_filename atm grid_size = Inl ValueError)"
  using assms
  by (cases "read_cell fl lines") (simp_all add: make_prob_density_def density_estimator_empty)

theorem make_prob_density_empty_selection_witness:
  "example_files ''no_argon.pdb'' = Some example_no_argon \<and>
   read_coords example_float ''Ar'' False [] example_no_argon = Inr [] \<and>
   make_prob_density example_float example_files ''no_argon.pdb'' ''Ar'' 2 = Inl ValueError"
  using make_prob_density_empty_selection [where files = example_files
      and pdb_filename = "''no_argon.pdb''" and lines = example_no_argon and fl = example_float
      and atm = "''Ar''" and grid_size = 2]
    example_no_argon_parsed
  by simp



section \<open>Claims about the orchestrator\<close>

text \<open>
  C4. For every non-degenerate grid of finite values, one whose maximum is above its
  minimum, the min-max normalisation of the orchestrator gives a grid whose minimum is 0 and
  whose maximum is 1.
\<close>

theorem minmax_normalize_unit_range:
  assumes "flat3 r \<noteq> []" and "Min (set (flat3 r)) < Max (set (flat3 r))"
  shows "\<exists>r'. minmax_normalize (map3 Fin r) = Inr (map3 Fin r') \<and>
           np_min (map3 Fin r') = Inr (Fin 0) \<and> np_max (map3 Fin r') = Inr (Fin 1)"
  using assms by (rule minmax_normalize_range)

theorem minmax_normalize_unit_range_witness:
  "flat3 [[[1 / 4, 0], [0, 3 / 4 :: real]]] \<noteq> [] \<and>
   Min (set (flat3 [[[1 / 4, 0], [0, 3 / 4 :: real]]])) <
     Max (set (flat3 [[[1 / 4, 0], [0, 3 / 4 :: real]]])) \<and>
   (\<exists>r'. minmax_normalize (map3 Fin [[[1 / 4, 0], [0, 3 / 4]]]) = Inr (map3 Fin r') \<and>
      np_min (map3 Fin r') = Inr (Fin 0) \<and> np_max (map3 Fin r') = Inr (Fin 1))"
proof -
  have ne: "flat3 [[[1 / 4, 0], [0, 3 / 4 :: real]]] \<noteq> []"
    by (simp add: flat3_def)
  have lt: "Min (set (flat3 [[[1 / 4, 0], [0, 3 / 4 :: real]]])) <
     Max (set (flat3 [[[1 / 4, 0], [0, 3 / 4 :: real]]]))"
    by (simp add: flat3_def)
  from minmax_normalize_unit_range [OF ne lt] ne lt show ?thesis by blast
qed

text \<open>
  C5, as amended. When a density grid of finite values is flat, its minimum equal to its
  maximum, the min-max normalisation raises no error: every cell becomes NaN, zero divided
  by zero, and the run goes on with the NaN grid.
\<close>

theorem minmax_normalize_flat:
  assumes "flat3 r \<noteq> []" and "Min (set (flat3 r)) = Max (set (flat3 r))"
  shows "minmax_normalize (map3 Fin r) = Inr (map3 (\<lambda>_. NaN) r)"
  using assms by (rule normalize_flat_grid_nan)

theorem minmax_normalize_flat_witness:
  "flat3 [[[1 / 2, 1 / 2 :: real]]] \<noteq> [] \<and>
   Min (set (flat3 [[[1 / 2, 1 / 2 :: real]]])) = Max (set (flat3 [[[1 / 2, 1 / 2 :: real]]])) \<and>
   minmax_normalize [[[Fin (1 / 2), Fin (1 / 2)]]] = Inr [[[NaN, NaN]]]"
proof -
  have ne: "flat3 [[[1 / 2, 1 / 2 :: real]]] \<noteq> []"
    by (simp add: flat3_def)
  have eq: "Min (set (flat3 [[[1 / 2, 1 / 2 :: real]]])) =
      Max (set (flat3 [[[1 / 2, 1 / 2 :: real]]]))"
    by (simp add: flat3_def)
  from minmax_normalize_flat [OF ne eq] ne eq show ?thesis by (simp add: map3_def)
qed

text \<open>
  C5, as stated, fails on the example files with one bin per axis: both densities are the
  flat grid with the single cell 1, no error is raised, the call returns 0 and all four grids
  handed to the writer hold NaN.
\<close>

theorem flat_density_counterexample:
  "make_prob_density example_float example_files ''before.pdb'' ''Ar'' 1 = Inr [[[Fin 1]]] \<and>
   make_prob_density example_float example_files ''after.pdb'' ''Ar'' 1 = Inr [[[Fin 1]]] \<and>
   get_filtered_prob_density example_float example_files recording_writer
       ''before.pdb'' ''after.pdb'' 1 10 ''Ar'' 1 [] =
     (Inr 0,
      [(''prob_density_Ar_before_step.cube'', [[[NaN]]]),
       (''prob_density_Ar_after_step.cube'', [[[NaN]]]),
       (''prob_density_Ar_difference.cube'', [[[NaN]]]),
       (''prob_density_Ar_difference_filtered.cube'', [[[NaN]]])])"
  by code_simp

text \<open>
  C8, as amended. Every failure before the first call of the writer (opening or parsing a
  file, binning, normalising, filtering) leaves the output directory as it was; when the
  writer itself does not fail, a run therefore writes either all four files, in the order
  before, after, difference, filtered difference, or none. Nothing is rolled back after a
  write.
\<close>

theorem get_filtered_prob_density_all_or_none:
  assumes "\<forall>name cell grid s. fst (write name cell grid s) = None"
  shows "(\<exists>e. get_filtered_prob_density fl files write pdb_before pdb_after grid_size cell_a atm
               padding_n s0 = (Inl e, s0)) \<or>
         (\<exists>before after diff filtered s1 s2 s3 s4.
            write (''prob_density_'' @ atm @ ''_before_step.cube'') cell_a before s0 = (None, s1) \<and>
            write (''prob_density_'' @ atm @ ''_after_step.cube'') cell_a after s1 = (None, s2) \<and>
            write (''prob_density_'' @ atm @ ''_difference.cube'') cell_a diff s2 = (None, s3) \<and>
            write (''prob_density_'' @ atm @ ''_difference_filtered.cube'') cell_a filtered s3 =
              (None, s4) \<and>
            get_filtered_prob_density fl files write pdb_before pdb_after grid_size cell_a atm
               padding_n s0 = (Inr 0, s4))"
  using assms by (intro get_filtered_prob_density_writes) simp

theorem get_filtered_prob_density_all_or_none_witness:
  "(\<forall>name cell grid s. fst (recording_writer name cell grid s) = None) \<and>
   map fst (snd (get_filtered_prob_density example_float example_files recording_writer
       ''before.pdb'' ''after.pdb'' 2 10 ''Ar'' 1 [])) =
     [''prob_density_Ar_before_step.cube'', ''prob_density_Ar_after_step.cube'',
      ''prob_density_Ar_difference.cube'', ''prob_density_Ar_difference_filtered.cube'']"
proof -
  have ok: "\<forall>name cell grid s. fst (recording_writer name cell grid s) = None"
    by (simp add: recording_writer_def)
  from get_filtered_prob_density_all_or_none [OF ok, of example_float example_files
        "''before.pdb''" "''after.pdb''" 2 10 "''Ar''" 1 "[]"]
  show ?thesis
  proof
    assume "\<exists>e. get_filtered_prob_density example_float example_files recording_writer
        ''before.pdb'' ''after.pdb'' 2 10 ''Ar'' 1 [] = (Inl e, [])"
    then show ?thesis unfolding example_run by simp
  next
    assume "\<exists>before after diff filtered s1 s2 s3 s4.
        recording_writer (''prob_density_'' @ ''Ar'' @ ''_before_step.cube'') 10 before [] =
          (None, s1) \<and>
        recording_writer (''prob_density_'' @ ''Ar'' @ ''_after_step.cube'') 10 after s1 =
          (None, s2) \<and>
        recording_writer (''prob_density_'' @ ''Ar'' @ ''_difference.cube'') 10 diff s2 =
          (None, s3) \<and>
        recording_writer (''prob_density_'' @ ''Ar'' @ ''_difference_filtered.cube'') 10
          filtered s3 = (None, s4) \<and>
        get_filtered_prob_density example_float example_files recording_writer
          ''before.pdb'' ''after.pdb'' 2 10 ''Ar'' 1 [] = (Inr 0, s4)"
    then show ?thesis using ok by (auto simp add: recording_writer_def)
  qed
qed

text \<open>
  C8, as stated, fails when the writer fails on the third file: the run ends with the
  writer's error and the first two files stay in the output directory.
\<close>

theorem partial_output_counterexample:
  "fst (get_filtered_prob_density example_float example_files
       (failing_writer ''prob_density_Ar_difference.cube'')
       ''before.pdb'' ''after.pdb'' 2 10 ''Ar'' 1 []) = Inl WriterError \<and>
   map fst (snd (get_filtered_prob_density example_float example_files
       (failing_writer ''prob_density_Ar_difference.cube'')
       ''before.pdb'' ''after.pdb'' 2 10 ''Ar'' 1 [])) =
     [''prob_density_Ar_before_step.cube'', ''prob_density_Ar_after_step.cube'']"
  by code_simp

text \<open>
  C10. When \<open>get_filtered_prob_density\<close> succeeds it returns the integer 0 and none of the
  four grids, which leave the function through the writer only; so the name
  \<open>prob_density_diff_filtered\<close> at the top level of the script is bound to 0.
\<close>

theorem get_filtered_prob_density_returns_0:
  assumes "get_filtered_prob_density fl files write pdb_before pdb_after grid_size cell_a atm
             padding_n s0 = (Inr v, s')"
  shows "v = 0 \<and> (\<forall>w t. script fl files write s0 = (Inr w, t) \<longrightarrow> w = 0)"
proof -
  have "v = 0" using assms by (rule get_filtered_prob_density_result)
  moreover have "w = 0" if "script fl files write s0 = (Inr w, t)" for w t
    using that unfolding script_def Let_def by (rule get_filtered_prob_density_result)
  ultimately show ?thesis by blast
qed

theorem get_filtered_prob_density_returns_0_witness:
  "fst (get_filtered_prob_density example_float example_files recording_writer
       ''before.pdb'' ''after.pdb'' 2 10 ''Ar'' 1 []) = Inr 0"
  using get_filtered_prob_density_returns_0 [OF example_run] unfolding example_run by simp

end
